theory Spec2Isabelle
  imports Main "HOL-Library.AList" "HOL-Library.Sublist"
begin

section \<open>Python strings\<close>

text \<open>
  Texts, URLs and filter values are \<open>string\<close>s. The model covers ASCII text: one
  \<open>char\<close> is one character, and case folding maps \<open>A\<close>..\<open>Z\<close> to \<open>a\<close>..\<open>z\<close>.
\<close>

definition lower_char :: "char \<Rightarrow> char" where
  "lower_char c =
     (case map_of (zip ''ABCDEFGHIJKLMNOPQRSTUVWXYZ'' ''abcdefghijklmnopqrstuvwxyz'') c of
        Some d \<Rightarrow> d
      | None \<Rightarrow> c)"

text \<open>\<^verbatim>\<open>s.lower()\<close>\<close>

definition lower :: "string \<Rightarrow> string" where
  "lower s = map lower_char s"

text \<open>\<^verbatim>\<open>s.startswith(p)\<close>\<close>

definition startswith :: "string \<Rightarrow> string \<Rightarrow> bool" where
  "startswith s p = (take (length p) s = p)"

text \<open>\<^verbatim>\<open>needle in hay\<close>: \<open>needle\<close> occurs in \<open>hay\<close> as a contiguous run.\<close>

fun py_in :: "string \<Rightarrow> string \<Rightarrow> bool" where
  "py_in needle [] = (needle = [])"
| "py_in needle (c # cs) = (startswith (c # cs) needle \<or> py_in needle cs)"

text \<open>\<^verbatim>\<open>sep.join(parts)\<close>\<close>

fun join :: "string \<Rightarrow> string list \<Rightarrow> string" where
  "join sep [] = []"
| "join sep [x] = x"
| "join sep (x # y # ys) = x @ sep @ join sep (y # ys)"

text \<open>The decimal numeral of a natural number, as an f-string prints it.\<close>

fun show_nat :: "nat \<Rightarrow> string" where
  "show_nat n =
     (if n < 10 then [''0123456789'' ! n]
      else show_nat (n div 10) @ [''0123456789'' ! (n mod 10)])"

text \<open>
  \<^verbatim>\<open>s.strip()\<close> removes the whitespace characters at both ends: space, tab, line
  feed, vertical tab, form feed, carriage return and the four separators
  \<^verbatim>\<open>\x1c\<close>..\<^verbatim>\<open>\x1f\<close>.
\<close>

definition is_space :: "char \<Rightarrow> bool" where
  "is_space c =
     (let n = (of_char c :: nat) in n = 32 \<or> (9 \<le> n \<and> n \<le> 13) \<or> (28 \<le> n \<and> n \<le> 31))"

definition strip :: "string \<Rightarrow> string" where
  "strip s = rev (dropWhile is_space (rev (dropWhile is_space s)))"

definition is_digit :: "char \<Rightarrow> bool" where
  "is_digit c = (48 \<le> (of_char c :: nat) \<and> (of_char c :: nat) \<le> 57)"

text \<open>\<^verbatim>\<open>s.isdigit()\<close>: not empty, and digits only.\<close>

definition isdigit :: "string \<Rightarrow> bool" where
  "isdigit s = (s \<noteq> [] \<and> list_all is_digit s)"

text \<open>
  The digits of a literal, read left to right with the value so far; an underscore is
  allowed between two digits only.
\<close>

fun digits_value :: "nat \<Rightarrow> string \<Rightarrow> nat option" where
  "digits_value acc [] = Some acc"
| "digits_value acc [c] =
     (if is_digit c then Some (acc * 10 + ((of_char c :: nat) - 48)) else None)"
| "digits_value acc (c # d # cs) =
     (if is_digit c then digits_value (acc * 10 + ((of_char c :: nat) - 48)) (d # cs)
      else if c = CHR ''_'' \<and> is_digit d then digits_value acc (d # cs)
      else None)"

definition unsigned_literal :: "string \<Rightarrow> nat option" where
  "unsigned_literal s =
     (case s of
        [] \<Rightarrow> None
      | c # cs \<Rightarrow> if is_digit c then digits_value 0 s else None)"

text \<open>
  \<^verbatim>\<open>int(s)\<close> on a string: surrounding whitespace is dropped, one sign is allowed,
  then a decimal literal. \<open>None\<close> is the \<^verbatim>\<open>ValueError\<close>.
\<close>

definition py_int :: "string \<Rightarrow> int option" where
  "py_int s =
     (case strip s of
        [] \<Rightarrow> None
      | c # cs \<Rightarrow>
          if c = CHR ''-'' then map_option (\<lambda>n. - int n) (unsigned_literal cs)
          else if c = CHR ''+'' then map_option int (unsigned_literal cs)
          else map_option int (unsigned_literal (c # cs)))"

section \<open>The world outside the batch processor\<close>

text \<open>
  What \<^verbatim>\<open>session.get(url)\<close> and \<^verbatim>\<open>response.text()\<close> give: the request raises
  (invalid URL, connection error, timeout) with a message, or a response arrives with a
  status and a body whose decoding may raise in turn.
\<close>

datatype fetch_outcome = Raised string | Response nat "string + string"

text \<open>
  An element matched by a selector, as the three texts the code reads from it:
  \<^verbatim>\<open>get_text(strip=True)\<close>, \<^verbatim>\<open>get_text(separator=' ', strip=True)\<close> and
  \<^verbatim>\<open>get_text(separator='\n', strip=True)\<close>.
\<close>

record element =
  text_stripped :: string
  text_spaced :: string
  text_lines :: string

text \<open>
  The libraries the processor calls, as parameters: the HTTP client, the selector engine
  (\<^verbatim>\<open>soup.select\<close> on the parsed body; \<open>Inl\<close> is the message of the exception an
  invalid selector raises), the generic extractor \<^verbatim>\<open>trafilatura.extract\<close>, and the
  message of the \<^verbatim>\<open>ValueError\<close> that \<^verbatim>\<open>int\<close> raises on a string.
\<close>

record runtime =
  http_get :: "string \<Rightarrow> fetch_outcome"
  soup_select :: "string \<Rightarrow> string \<Rightarrow> string + element list"
  trafilatura_extract :: "string \<Rightarrow> string + string option"
  int_error :: "string \<Rightarrow> string"

section \<open>Content filters\<close>

definition no_content_found :: string where
  "no_content_found = ''No content found''"

text \<open>
  The body of the loop over \<^verbatim>\<open>content_filters.items()\<close> for one item: \<open>Inl\<close> is
  the exception of \<^verbatim>\<open>int(filter_value)\<close>, \<open>Inr (Some r)\<close> the value returned from
  inside the loop, \<open>Inr None\<close> falling through to the next item. Each \<^verbatim>\<open>elif\<close> is
  reached when the test before it is false, and \<^verbatim>\<open>int\<close> runs only after the kind
  has matched.
\<close>

definition check_filter :: "runtime \<Rightarrow> string \<Rightarrow> string \<times> string \<Rightarrow> string + string option" where
  "check_filter w text_content item =
     (case item of (filter_type, filter_value) \<Rightarrow>
       if filter_type = ''min_length'' \<and> py_int filter_value = None
         then Inl (int_error w filter_value)
       else if filter_type = ''min_length'' \<and> int (length text_content) < the (py_int filter_value)
         then Inr (Some (''Content filtered: Too short (min: '' @ filter_value @ '')''))
       else if filter_type = ''max_length'' \<and> py_int filter_value = None
         then Inl (int_error w filter_value)
       else if filter_type = ''max_length'' \<and> int (length text_content) > the (py_int filter_value)
         then Inr (Some (''Content filtered: Too long (max: '' @ filter_value @ '')''))
       else if filter_type = ''contains'' \<and> \<not> py_in (lower filter_value) (lower text_content)
         then Inr (Some (''Content filtered: Does not contain '' @ [CHR 0x27] @ filter_value @ [CHR 0x27]))
       else if filter_type = ''excludes'' \<and> py_in (lower filter_value) (lower text_content)
         then Inr (Some (''Content filtered: Contains excluded text '' @ [CHR 0x27] @ filter_value @ [CHR 0x27]))
       else Inr None)"

text \<open>
  The loop: the items in the mapping's iteration order, which for a Python \<^verbatim>\<open>dict\<close>
  is the order of insertion; the first return or exception ends it.
\<close>

fun apply_filters :: "runtime \<Rightarrow> string \<Rightarrow> (string \<times> string) list \<Rightarrow> string + string option" where
  "apply_filters w text_content [] = Inr None"
| "apply_filters w text_content (item # items) =
     (case check_filter w text_content item of
        Inl e \<Rightarrow> Inl e
      | Inr (Some r) \<Rightarrow> Inr (Some r)
      | Inr None \<Rightarrow> apply_filters w text_content items)"

text \<open>
  The form handler of \<^verbatim>\<open>main.py\<close> builds the mapping from the four (stripped) form
  fields, in this order; an empty mapping is passed on as \<^verbatim>\<open>None\<close>.
\<close>

definition build_content_filters ::
  "string \<Rightarrow> string \<Rightarrow> string \<Rightarrow> string \<Rightarrow> (string \<times> string) list" where
  "build_content_filters min_length max_length contains_text excludes_text =
     (if min_length \<noteq> [] \<and> isdigit min_length then [(''min_length'', min_length)] else []) @
     (if max_length \<noteq> [] \<and> isdigit max_length then [(''max_length'', max_length)] else []) @
     (if contains_text \<noteq> [] then [(''contains'', contains_text)] else []) @
     (if excludes_text \<noteq> [] then [(''excludes'', excludes_text)] else [])"

section \<open>Processing one URL\<close>

text \<open>
  The keyword arguments of \<^verbatim>\<open>process_url\<close>. The content selector is absent, one
  string or a list of strings.
\<close>

datatype selector_arg = NoSelector | OneSelector string | SelectorList "string list"

record extraction_request =
  req_content_selector :: selector_arg
  req_code_selector :: "string option"
  req_exclude_selector :: "string option"
  req_search_query :: "string option"
  req_content_filters :: "(string \<times> string) list option"

text \<open>Truth values of the arguments: \<^verbatim>\<open>None\<close>, the empty string and the empty list are false.\<close>

definition truthy :: "string option \<Rightarrow> bool" where
  "truthy a = (case a of None \<Rightarrow> False | Some v \<Rightarrow> v \<noteq> [])"

definition selector_truthy :: "selector_arg \<Rightarrow> bool" where
  "selector_truthy a =
     (case a of NoSelector \<Rightarrow> False | OneSelector v \<Rightarrow> v \<noteq> [] | SelectorList vs \<Rightarrow> vs \<noteq> [])"

text \<open>
  The selectors each of the three steps runs: none when the argument is false, the
  string alone (\<^verbatim>\<open>[content_selector]\<close>) or the list.
\<close>

definition content_selectors :: "selector_arg \<Rightarrow> string list" where
  "content_selectors a =
     (case a of
        NoSelector \<Rightarrow> []
      | OneSelector v \<Rightarrow> if v \<noteq> [] then [v] else []
      | SelectorList vs \<Rightarrow> vs)"

definition optional_selector :: "string option \<Rightarrow> string list" where
  "optional_selector a = (case a of None \<Rightarrow> [] | Some v \<Rightarrow> if v \<noteq> [] then [v] else [])"

text \<open>
  \<^verbatim>\<open>soup.select(selector)\<close> for each selector in turn, keeping the text (read by
  \<open>get\<close>) of every matched element whose stripped text is not empty. The first
  selector that raises ends the loop.
\<close>

fun select_texts ::
  "runtime \<Rightarrow> string \<Rightarrow> (element \<Rightarrow> string) \<Rightarrow> string list \<Rightarrow> string + string list" where
  "select_texts w html get [] = Inr []"
| "select_texts w html get (selector # selectors) =
     (case soup_select w html selector of
        Inl e \<Rightarrow> Inl e
      | Inr elements \<Rightarrow>
          (case select_texts w html get selectors of
             Inl e \<Rightarrow> Inl e
           | Inr others \<Rightarrow>
               Inr (map get (filter (\<lambda>elem. text_stripped elem \<noteq> []) elements) @ others)))"

text \<open>
  Lines 38 to 64: with any selector given, the texts of the content selectors, then of
  the code selector; the exclude selector is evaluated last (its matches are removed
  from the tree after the texts were read, so it can only raise). Without selectors, the
  generic extractor. Nothing extracted gives the literal \<open>No content found\<close>.
\<close>

definition extract_text :: "runtime \<Rightarrow> extraction_request \<Rightarrow> string \<Rightarrow> string + string" where
  "extract_text w req html =
     (if selector_truthy (req_content_selector req) \<or> truthy (req_code_selector req)
           \<or> truthy (req_exclude_selector req)
      then
        (case select_texts w html text_spaced (content_selectors (req_content_selector req)) of
           Inl e \<Rightarrow> Inl e
         | Inr content \<Rightarrow>
             (case select_texts w html text_lines (optional_selector (req_code_selector req)) of
                Inl e \<Rightarrow> Inl e
              | Inr code \<Rightarrow>
                  (case select_texts w html text_stripped (optional_selector (req_exclude_selector req)) of
                     Inl e \<Rightarrow> Inl e
                   | Inr excluded \<Rightarrow>
                       Inr (if content @ code \<noteq> []
                            then join [CHR 0x0A, CHR 0x0A] (content @ code)
                            else no_content_found))))
      else
        (case trafilatura_extract w html of
           Inl e \<Rightarrow> Inl e
         | Inr None \<Rightarrow> Inr no_content_found
         | Inr (Some t) \<Rightarrow> Inr (if t \<noteq> [] then t else no_content_found)))"

text \<open>
  Lines 66 to 83: the search query (a case-insensitive search for the escaped, hence
  literal, query), then the content filters, both only for a text other than
  \<open>No content found\<close>; then the text itself.
\<close>

definition search_and_filter :: "runtime \<Rightarrow> extraction_request \<Rightarrow> string \<Rightarrow> string + string" where
  "search_and_filter w req text_content =
     (if truthy (req_search_query req) \<and> text_content \<noteq> no_content_found
         \<and> \<not> py_in (lower (the (req_search_query req))) (lower text_content)
      then Inr ''Content filtered: Does not match search query''
      else
        (case req_content_filters req of
           None \<Rightarrow> Inr text_content
         | Some content_filters \<Rightarrow>
             if content_filters \<noteq> [] \<and> text_content \<noteq> no_content_found
             then (case apply_filters w text_content content_filters of
                     Inl e \<Rightarrow> Inl e
                   | Inr (Some r) \<Rightarrow> Inr r
                   | Inr None \<Rightarrow> Inr text_content)
             else Inr text_content))"

text \<open>The \<^verbatim>\<open>try\<close> block of \<^verbatim>\<open>process_url\<close>: \<open>Inl\<close> is the message of a raised exception.\<close>

definition try_process_url :: "runtime \<Rightarrow> extraction_request \<Rightarrow> string \<Rightarrow> string + string" where
  "try_process_url w req url =
     (case http_get w url of
        Raised e \<Rightarrow> Inl e
      | Response status body \<Rightarrow>
          if status = 200 then
            (case body of
               Inl e \<Rightarrow> Inl e
             | Inr html_content \<Rightarrow>
                 (case extract_text w req html_content of
                    Inl e \<Rightarrow> Inl e
                  | Inr text_content \<Rightarrow> search_and_filter w req text_content))
          else Inr (''Error: HTTP '' @ show_nat status))"

text \<open>With the \<^verbatim>\<open>except Exception\<close> clause: the value stored for the URL.\<close>

definition url_result :: "runtime \<Rightarrow> extraction_request \<Rightarrow> string \<Rightarrow> string" where
  "url_result w req url =
     (case try_process_url w req url of
        Inl e \<Rightarrow> ''Error: '' @ e
      | Inr v \<Rightarrow> v)"

section \<open>The batch processor\<close>

record batch_progress =
  total_urls :: int
  processed_urls :: int
  failed_urls :: int
  current_batch :: int
  total_batches :: int

text \<open>
  What is observable of a run from outside: a request issued for a URL, and the end of
  that URL's processing.
\<close>

datatype event = Requested string | Completed string

text \<open>
  The processor object, with the trace of the events of its runs. \<open>progress\<close> is
  \<^verbatim>\<open>None\<close> until \<^verbatim>\<open>process_urls\<close> sets it.
\<close>

record processor =
  batch_size :: int
  max_concurrent :: int
  progress :: "batch_progress option"
  events :: "event list"

text \<open>\<^verbatim>\<open>BatchProcessor()\<close>\<close>

definition new_processor :: processor where
  "new_processor = \<lparr>batch_size = 10, max_concurrent = 5, progress = None, events = []\<rparr>"

text \<open>The \<^verbatim>\<open>finally\<close> clause of \<^verbatim>\<open>process_url\<close>.\<close>

definition count_processed :: "processor \<Rightarrow> processor" where
  "count_processed p =
     (case progress p of
        None \<Rightarrow> p
      | Some g \<Rightarrow> p\<lparr>progress := Some (g\<lparr>processed_urls := processed_urls g + 1\<rparr>)\<rparr>)"

text \<open>
  \<^verbatim>\<open>process_url\<close> from the response on: the one-entry mapping it returns, and the
  processor after the \<^verbatim>\<open>finally\<close> clause.
\<close>

definition process_url ::
  "runtime \<Rightarrow> extraction_request \<Rightarrow> string \<Rightarrow> processor \<Rightarrow> (string \<times> string) list \<times> processor" where
  "process_url w req url p =
     ([(url, url_result w req url)],
      count_processed (p\<lparr>events := events p @ [Completed url]\<rparr>))"

text \<open>
  \<^verbatim>\<open>d.update(other)\<close> on mappings kept as association lists in insertion order: a
  key already present keeps its place and takes the new value, a new key goes to the end.
\<close>

definition dict_update :: "('k \<times> 'v) list \<Rightarrow> ('k \<times> 'v) list \<Rightarrow> ('k \<times> 'v) list" where
  "dict_update d other = fold (\<lambda>(k, v) acc. AList.update k v acc) other d"

text \<open>The tasks of one \<^verbatim>\<open>gather\<close>, their results collected in the order of the URLs.\<close>

fun gather ::
  "runtime \<Rightarrow> extraction_request \<Rightarrow> string list \<Rightarrow> processor \<Rightarrow>
   (string \<times> string) list list \<times> processor" where
  "gather w req [] p = ([], p)"
| "gather w req (url # urls) p =
     (case process_url w req url p of
        (r, p') \<Rightarrow> (case gather w req urls p' of (rs, p'') \<Rightarrow> (r # rs, p'')))"

text \<open>
  \<^verbatim>\<open>process_batch\<close>: one coroutine per URL of the chunk, all handed to
  \<^verbatim>\<open>asyncio.gather\<close> at once. Each runs up to its request (line 33) when the event
  loop starts it, before any response is handled, so the requests of the whole chunk
  are issued first; \<open>max_concurrent\<close> is not read. The trace completes the URLs in
  the chunk's order; the results do not depend on that order.
\<close>

definition process_batch ::
  "runtime \<Rightarrow> extraction_request \<Rightarrow> string list \<Rightarrow> processor \<Rightarrow> (string \<times> string) list \<times> processor" where
  "process_batch w req urls p =
     (case gather w req urls (p\<lparr>events := events p @ map Requested urls\<rparr>) of
        (results, p') \<Rightarrow>
          (fold (\<lambda>result merged. dict_update merged result) results [],
           (case progress p' of
              None \<Rightarrow> p'
            | Some g \<Rightarrow> p'\<lparr>progress := Some (g\<lparr>current_batch := current_batch g + 1\<rparr>)\<rparr>)))"

text \<open>
  \<^verbatim>\<open>range(0, n, step)\<close> for \<open>n \<ge> 0\<close> and a step other than zero: empty for a
  negative step.
\<close>

definition range_from_zero :: "nat \<Rightarrow> int \<Rightarrow> nat list" where
  "range_from_zero n step =
     (if step \<le> 0 then []
      else map (\<lambda>k. k * nat step) [0 ..< (n + nat step - 1) div nat step])"

text \<open>\<^verbatim>\<open>urls[i:i + len]\<close> for \<open>i \<ge> 0\<close> and \<open>len > 0\<close>.\<close>

definition slice_from :: "'a list \<Rightarrow> nat \<Rightarrow> int \<Rightarrow> 'a list" where
  "slice_from xs i len = take (nat len) (drop i xs)"

text \<open>The loop of \<^verbatim>\<open>process_urls\<close> over the start indices of the chunks.\<close>

fun run_batches ::
  "runtime \<Rightarrow> extraction_request \<Rightarrow> string list \<Rightarrow> nat list \<Rightarrow>
   (string \<times> string) list \<Rightarrow> processor \<Rightarrow> (string \<times> string) list \<times> processor" where
  "run_batches w req urls [] results p = (results, p)"
| "run_batches w req urls (i # is) results p =
     (case process_batch w req (slice_from urls i (batch_size p)) p of
        (batch_results, p') \<Rightarrow> run_batches w req urls is (dict_update results batch_results) p')"

text \<open>What \<^verbatim>\<open>process_urls\<close> can raise by itself.\<close>

datatype pipeline_failure = ZeroDivisionError

text \<open>
  \<^verbatim>\<open>process_urls\<close>: the progress record is created first; its \<open>total_batches\<close>
  divides by the batch size, which raises for a batch size of zero before anything
  else happens. Python's \<^verbatim>\<open>//\<close> and \<^verbatim>\<open>%\<close> round as \<open>div\<close> and \<open>mod\<close> on \<open>int\<close> do.
\<close>

definition process_urls ::
  "runtime \<Rightarrow> extraction_request \<Rightarrow> string list \<Rightarrow> processor \<Rightarrow>
   (pipeline_failure + (string \<times> string) list) \<times> processor" where
  "process_urls w req urls p =
     (if batch_size p = 0 then (Inl ZeroDivisionError, p)
      else
        (let n = int (length urls);
             p0 = p\<lparr>progress := Some \<lparr>total_urls = n, processed_urls = 0, failed_urls = 0,
                      current_batch = 0,
                      total_batches = n div batch_size p + (if n mod batch_size p \<noteq> 0 then 1 else 0)\<rparr>\<rparr>
         in case run_batches w req urls (range_from_zero (length urls) (batch_size p)) [] p0 of
              (results, p') \<Rightarrow> (Inr results, p')))"

text \<open>\<^verbatim>\<open>process_urls_sync\<close>: a fresh processor with the default sizes.\<close>

definition process_urls_sync ::
  "runtime \<Rightarrow> extraction_request \<Rightarrow> string list \<Rightarrow>
   (pipeline_failure + (string \<times> string) list) \<times> processor" where
  "process_urls_sync w req urls = process_urls w req urls new_processor"

text \<open>
  The number of URLs requested and not yet completed, before the first event of a trace
  and after each of its events, starting from \<open>cur\<close>; and its largest value.
\<close>

fun in_flight :: "int \<Rightarrow> event list \<Rightarrow> int list" where
  "in_flight cur [] = [cur]"
| "in_flight cur (Requested u # evs) = cur # in_flight (cur + 1) evs"
| "in_flight cur (Completed u # evs) = cur # in_flight (cur - 1) evs"

definition peak_in_flight :: "event list \<Rightarrow> int" where
  "peak_in_flight evs = fold max (in_flight 0 evs) 0"

section \<open>Persistence schema of the sync manager\<close>

text \<open>
  The relations read and written by \<^verbatim>\<open>sync_manager.py\<close>. A nullable column is an
  \<open>option\<close>. Timestamps are microseconds since an epoch (the resolution of the
  store's \<^verbatim>\<open>NOW()\<close>), as unbounded integers.
\<close>

type_synonym timestamp = int

record sync_config =
  cfg_id :: nat
  doc_id :: string
  base_page_name :: string
  sync_interval :: int
  content_selector :: "string option"
  code_selector :: "string option"
  exclude_selector :: "string option"
  active :: bool
  last_sync :: "timestamp option"

record tracked_url =
  tu_config_id :: nat
  tu_url :: string
  last_content_hash :: "string option"
  tu_last_sync :: "timestamp option"

record sync_history =
  sh_config_id :: nat
  sh_status :: string
  sh_message :: string
  urls_processed :: nat
  urls_failed :: nat

record store =
  sync_configurations :: "sync_config list"
  tracked_urls :: "tracked_url list"
  sync_history_rows :: "sync_history list"

section \<open>The scheduler's due check\<close>

text \<open>
  \<^verbatim>\<open>(sync_interval || ' minutes')::interval\<close>: the interval column, in minutes,
  as a time span.
\<close>

definition minutes :: "int \<Rightarrow> int" where
  "minutes n = n * 60000000"

text \<open>
  The \<^verbatim>\<open>WHERE\<close> clause of the query in \<^verbatim>\<open>run_sync_cycle\<close>:
  \<^verbatim>\<open>active = true AND (last_sync IS NULL OR NOW() - last_sync > interval)\<close>.
\<close>

definition is_due :: "timestamp \<Rightarrow> sync_config \<Rightarrow> bool" where
  "is_due now c =
     (active c \<and>
      (case last_sync c of
         None \<Rightarrow> True
       | Some t \<Rightarrow> now - t > minutes (sync_interval c)))"

text \<open>The rows \<^verbatim>\<open>run_sync_cycle\<close> fetches at a tick.\<close>

definition due_configs :: "timestamp \<Rightarrow> store \<Rightarrow> sync_config list" where
  "due_configs now db = filter (is_due now) (sync_configurations db)"

section \<open>The sync pass\<close>

text \<open>
  The statements of one pass that talk to the store. Any of them may raise; so may the
  connection itself.
\<close>

datatype db_step =
  Connect | SelectTracked | UpdateTracked string | InsertHistory | UpdateConfig | Commit

text \<open>
  What a pass takes from outside the store and the fetcher: the digest
  \<^verbatim>\<open>hashlib.sha256(content.encode()).hexdigest()\<close>, the minute
  \<^verbatim>\<open>datetime.now().strftime('%Y-%m-%d %H:%M')\<close> printed when a URL's page is
  generated, and the store operations that raise in this pass, with their messages.
\<close>

record sync_env =
  sha256_hexdigest :: "string \<Rightarrow> string"
  minute_label :: "string \<Rightarrow> string"
  db_fault :: "db_step \<Rightarrow> string option"

text \<open>A call of \<^verbatim>\<open>Formula_GenerateSubPage\<close>; what it returns or raises is only logged.\<close>

record sink_call =
  sink_doc_id :: string
  sink_page_name :: string
  sink_content :: "(string \<times> string) list"

text \<open>\<^verbatim>\<open>_compute_content_hash\<close>\<close>

definition compute_content_hash :: "sync_env \<Rightarrow> string \<Rightarrow> string" where
  "compute_content_hash env content = sha256_hexdigest env content"

text \<open>
  \<^verbatim>\<open>next((row['last_content_hash'] for row in tracked_urls if row['url'] == url), None)\<close>:
  the stored hash of the first fetched row with this URL.
\<close>

definition find_old_hash :: "tracked_url list \<Rightarrow> string \<Rightarrow> string option" where
  "find_old_hash rows url =
     (case filter (\<lambda>row. tu_url row = url) rows of
        [] \<Rightarrow> None
      | row # _ \<Rightarrow> last_content_hash row)"

text \<open>
  \<^verbatim>\<open>UPDATE tracked_urls SET last_content_hash = %s, last_sync = NOW()
  WHERE config_id = %s AND url = %s\<close>
\<close>

definition update_tracked_url ::
  "nat \<Rightarrow> string \<Rightarrow> string \<Rightarrow> timestamp \<Rightarrow> tracked_url list \<Rightarrow> tracked_url list" where
  "update_tracked_url cid url new_hash now rows =
     map (\<lambda>row. if tu_config_id row = cid \<and> tu_url row = url
                then row\<lparr>last_content_hash := Some new_hash, tu_last_sync := Some now\<rparr>
                else row) rows"

text \<open>
  The state of the loop over \<^verbatim>\<open>results.items()\<close>: the table as the open
  transaction sees it, the counter, the sink calls made so far, and the exception that
  ended the loop, if any.
\<close>

record pass_state =
  tracked_table :: "tracked_url list"
  urls_changed :: nat
  sink_calls :: "sink_call list"
  raised :: "string option"

text \<open>
  Lines 90 to 118. A result that does not start with \<open>Error:\<close> is hashed and compared
  with the stored hash (\<open>None\<close> differs from every hash); on a difference the counter
  is incremented, the row updated, and the page generated. \<open>rows\<close> are the rows
  fetched at the start of the pass.
\<close>

fun detect_changes ::
  "sync_env \<Rightarrow> timestamp \<Rightarrow> sync_config \<Rightarrow> tracked_url list \<Rightarrow> (string \<times> string) list \<Rightarrow>
   pass_state \<Rightarrow> pass_state" where
  "detect_changes env now config rows [] st = st"
| "detect_changes env now config rows ((url, content) # items) st =
     (if \<not> startswith content ''Error:'' then
        (let new_hash = compute_content_hash env content;
             old_hash = find_old_hash rows url
         in if Some new_hash \<noteq> old_hash then
              (case db_fault env (UpdateTracked url) of
                 Some e \<Rightarrow> st\<lparr>urls_changed := urls_changed st + 1, raised := Some e\<rparr>
               | None \<Rightarrow>
                   detect_changes env now config rows items
                     (st\<lparr>urls_changed := urls_changed st + 1,
                         tracked_table :=
                           update_tracked_url (cfg_id config) url new_hash now (tracked_table st),
                         sink_calls := sink_calls st @
                           [\<lparr>sink_doc_id = doc_id config,
                             sink_page_name = base_page_name config @ '' - '' @ minute_label env url,
                             sink_content = [(url, content)]\<rparr>]\<rparr>))
            else detect_changes env now config rows items st)
      else detect_changes env now config rows items st)"

text \<open>The keyword arguments a pass gives to \<^verbatim>\<open>process_urls\<close>: the three selectors of the configuration.\<close>

definition request_of :: "sync_config \<Rightarrow> extraction_request" where
  "request_of config =
     \<lparr>req_content_selector =
        (case content_selector config of None \<Rightarrow> NoSelector | Some v \<Rightarrow> OneSelector v),
      req_code_selector = code_selector config,
      req_exclude_selector = exclude_selector config,
      req_search_query = None,
      req_content_filters = None\<rparr>"

definition failure_message :: "pipeline_failure \<Rightarrow> string" where
  "failure_message f = (case f of ZeroDivisionError \<Rightarrow> ''integer division or modulo by zero'')"

text \<open>
  The \<^verbatim>\<open>try\<close> block of \<^verbatim>\<open>_process_config\<close>, in one transaction: \<open>Inl\<close> is the
  message of the exception that left it, and then nothing of the transaction is kept
  (leaving the \<^verbatim>\<open>with\<close> block by an exception rolls it back); \<open>Inr\<close> is the store
  after the commit. The sink calls made are returned in both cases. The manager's
  processor has the default sizes, and \<^verbatim>\<open>process_urls\<close> replaces its progress, so
  each pass starts as from a new one. \<open>now\<close> is the transaction's \<^verbatim>\<open>NOW()\<close>.
\<close>

definition sync_pass ::
  "sync_env \<Rightarrow> runtime \<Rightarrow> timestamp \<Rightarrow> sync_config \<Rightarrow> store \<Rightarrow> (string + store) \<times> sink_call list" where
  "sync_pass env w now config db =
     (case db_fault env Connect of Some e \<Rightarrow> (Inl e, []) | None \<Rightarrow>
      case db_fault env SelectTracked of Some e \<Rightarrow> (Inl e, []) | None \<Rightarrow>
      let rows = filter (\<lambda>row. tu_config_id row = cfg_id config) (tracked_urls db) in
      if rows = [] then (Inr db, [])
      else
        case fst (process_urls w (request_of config) (map tu_url rows) new_processor) of
          Inl f \<Rightarrow> (Inl (failure_message f), [])
        | Inr results \<Rightarrow>
            let processed = length results;
                failed = length (filter (\<lambda>(url, content). startswith content ''Error:'') results);
                st = detect_changes env now config rows results
                       \<lparr>tracked_table = tracked_urls db, urls_changed = 0, sink_calls = [],
                        raised = None\<rparr>
            in
            case raised st of Some e \<Rightarrow> (Inl e, sink_calls st) | None \<Rightarrow>
            case db_fault env InsertHistory of Some e \<Rightarrow> (Inl e, sink_calls st) | None \<Rightarrow>
            case db_fault env UpdateConfig of Some e \<Rightarrow> (Inl e, sink_calls st) | None \<Rightarrow>
            case db_fault env Commit of Some e \<Rightarrow> (Inl e, sink_calls st) | None \<Rightarrow>
              (Inr \<lparr>sync_configurations =
                      map (\<lambda>c. if cfg_id c = cfg_id config then c\<lparr>last_sync := Some now\<rparr> else c)
                        (sync_configurations db),
                    tracked_urls = tracked_table st,
                    sync_history_rows = sync_history_rows db @
                      [\<lparr>sh_config_id = cfg_id config, sh_status = ''completed'',
                        sh_message = ''Processed '' @ show_nat processed @ '' URLs: ''
                          @ show_nat (urls_changed st) @ '' changed, ''
                          @ show_nat failed @ '' failed'',
                        urls_processed = processed, urls_failed = failed\<rparr>]\<rparr>,
               sink_calls st))"

text \<open>
  \<^verbatim>\<open>_process_config\<close>: the pass, and the \<^verbatim>\<open>except\<close> clause, which records the
  failure through a connection of its own (taken here to succeed).
\<close>

definition process_config ::
  "sync_env \<Rightarrow> runtime \<Rightarrow> timestamp \<Rightarrow> sync_config \<Rightarrow> store \<Rightarrow> store \<times> sink_call list" where
  "process_config env w now config db =
     (case sync_pass env w now config db of
        (Inr db', calls) \<Rightarrow> (db', calls)
      | (Inl e, calls) \<Rightarrow>
          (db\<lparr>sync_history_rows := sync_history_rows db @
                [\<lparr>sh_config_id = cfg_id config, sh_status = ''error'', sh_message = e,
                  urls_processed = 0, urls_failed = 0\<rparr>]\<rparr>,
           calls))"

section \<open>Example inputs\<close>

text \<open>
  A small world: the URLs under \<open>https://a.example\<close>, and \<open>https://b.example\<close>,
  answer 200 with a body, \<open>https://f.example\<close> answers 403, \<open>https://s.example\<close> answers 500, \<open>https://e.example\<close> answers 200 with
  an empty page, any other request raises. The selector \<open>p\<close> matches the body as one
  element, \<open>[\<close> is not a selector, any other selector matches nothing; the generic
  extractor returns the body, or nothing for an empty one.
\<close>

definition example_runtime :: runtime where
  "example_runtime =
     \<lparr>http_get = (\<lambda>url.
        if startswith url ''https://a.example'' then Response 200 (Inr ''alpha'')
        else if url = ''https://b.example'' then Response 200 (Inr ''beta'')
        else if url = ''https://e.example'' then Response 200 (Inr [])
        else if url = ''https://f.example'' then Response 403 (Inr ''denied'')
        else if url = ''https://s.example'' then Response 500 (Inr ''broken'')
        else Raised ''Cannot connect to host''),
      soup_select = (\<lambda>html selector.
        if selector = ''['' then Inl ''Malformed attribute selector''
        else if selector = ''p'' \<and> html \<noteq> []
          then Inr [\<lparr>text_stripped = html, text_spaced = html, text_lines = html\<rparr>]
        else Inr []),
      trafilatura_extract = (\<lambda>html. Inr (if html = [] then None else Some html)),
      int_error = (\<lambda>v. ''invalid literal for int() with base 10: '' @ v)\<rparr>"

definition ten_urls :: "string list" where
  "ten_urls = map (\<lambda>k. ''https://a.example/'' @ [k]) ''0123456789''"

definition plain_request :: extraction_request where
  "plain_request =
     \<lparr>req_content_selector = NoSelector, req_code_selector = None, req_exclude_selector = None,
      req_search_query = None, req_content_filters = None\<rparr>"

definition example_env :: sync_env where
  "example_env =
     \<lparr>sha256_hexdigest = (\<lambda>content. ''#'' @ content),
      minute_label = (\<lambda>url. ''2024-01-01 00:00''),
      db_fault = (\<lambda>step. None)\<rparr>"

definition example_config :: sync_config where
  "example_config =
     \<lparr>cfg_id = 1, doc_id = ''doc'', base_page_name = ''Page'', sync_interval = 15,
      content_selector = None, code_selector = None, exclude_selector = None,
      active = True, last_sync = None\<rparr>"

definition example_store :: store where
  "example_store =
     \<lparr>sync_configurations = [example_config],
      tracked_urls =
        [\<lparr>tu_config_id = 1, tu_url = ''https://a.example'', last_content_hash = None,
          tu_last_sync = None\<rparr>,
         \<lparr>tu_config_id = 1, tu_url = ''https://b.example'', last_content_hash = None,
          tu_last_sync = None\<rparr>],
      sync_history_rows = []\<rparr>"

text \<open>The example store after a first pass at time 1000 that found both pages.\<close>

definition example_store_synced :: store where
  "example_store_synced =
     \<lparr>sync_configurations = [example_config\<lparr>last_sync := Some 1000\<rparr>],
      tracked_urls =
        [\<lparr>tu_config_id = 1, tu_url = ''https://a.example'',
          last_content_hash = Some ''#alpha'', tu_last_sync = Some 1000\<rparr>,
         \<lparr>tu_config_id = 1, tu_url = ''https://b.example'',
          last_content_hash = Some ''#beta'', tu_last_sync = Some 1000\<rparr>],
      sync_history_rows =
        [\<lparr>sh_config_id = 1, sh_status = ''completed'',
          sh_message = ''Processed 2 URLs: 2 changed, 0 failed'',
          urls_processed = 2, urls_failed = 0\<rparr>]\<rparr>"


section \<open>Notions used in the statements\<close>

text \<open>One item of a filter mapping rejects the text: the loop body returns from inside the loop.\<close>

definition filter_fails :: "runtime \<Rightarrow> string \<Rightarrow> string \<times> string \<Rightarrow> bool" where
  "filter_fails w text_content item =
     (case check_filter w text_content item of
        Inr (Some r) \<Rightarrow> True
      | _ \<Rightarrow> False)"


definition known_filter_kinds :: "string list" where
  "known_filter_kinds = [''min_length'', ''max_length'', ''contains'', ''excludes'']"

text \<open>
  No content can be extracted from a page: with selectors given, no selected element
  has text; without selectors, the generic extractor returns nothing.
\<close>

definition nothing_extracted :: "runtime \<Rightarrow> extraction_request \<Rightarrow> string \<Rightarrow> bool" where
  "nothing_extracted w req html =
     (if selector_truthy (req_content_selector req) \<or> truthy (req_code_selector req)
           \<or> truthy (req_exclude_selector req)
      then select_texts w html text_spaced (content_selectors (req_content_selector req)) = Inr []
           \<and> select_texts w html text_lines (optional_selector (req_code_selector req)) = Inr []
           \<and> \<not> isl (select_texts w html text_stripped (optional_selector (req_exclude_selector req)))
      else trafilatura_extract w html = Inr None \<or> trafilatura_extract w html = Inr (Some []))"

text \<open>
  Change detection in the words of the specification: the fingerprint of the new text
  differs from the stored hash, and a missing stored hash always counts as a change.
\<close>

definition is_changed :: "sync_env \<Rightarrow> tracked_url list \<Rightarrow> string \<Rightarrow> string \<Rightarrow> bool" where
  "is_changed env rows url content =
     (case find_old_hash rows url of
        None \<Rightarrow> True
      | Some h \<Rightarrow> compute_content_hash env content \<noteq> h)"

text \<open>The results of a pass that are not errors and are changed.\<close>

definition changed_items ::
  "sync_env \<Rightarrow> tracked_url list \<Rightarrow> (string \<times> string) list \<Rightarrow> (string \<times> string) list" where
  "changed_items env rows results =
     filter (\<lambda>(url, content). \<not> startswith content ''Error:'' \<and> is_changed env rows url content)
       results"

text \<open>The rows a pass fetches for a configuration, and the results of its extraction.\<close>

definition pass_rows :: "sync_config \<Rightarrow> store \<Rightarrow> tracked_url list" where
  "pass_rows config db = filter (\<lambda>row. tu_config_id row = cfg_id config) (tracked_urls db)"

definition pass_results :: "runtime \<Rightarrow> sync_config \<Rightarrow> store \<Rightarrow> (string \<times> string) list" where
  "pass_results w config db =
     (case fst (process_urls w (request_of config) (map tu_url (pass_rows config db)) new_processor) of
        Inl f \<Rightarrow> []
      | Inr results \<Rightarrow> results)"

text \<open>A row after a pass that persisted the new hash and timestamp of the given items.\<close>

definition persist_change ::
  "sync_env \<Rightarrow> timestamp \<Rightarrow> sync_config \<Rightarrow> (string \<times> string) list \<Rightarrow> tracked_url \<Rightarrow> tracked_url" where
  "persist_change env now config items row =
     (case map_of items (tu_url row) of
        None \<Rightarrow> row
      | Some content \<Rightarrow>
          if tu_config_id row = cfg_id config
          then row\<lparr>last_content_hash := Some (compute_content_hash env content),
                   tu_last_sync := Some now\<rparr>
          else row)"

text \<open>The sink call for one item.\<close>

definition sink_call_for :: "sync_env \<Rightarrow> sync_config \<Rightarrow> string \<times> string \<Rightarrow> sink_call" where
  "sink_call_for env config item =
     \<lparr>sink_doc_id = doc_id config,
      sink_page_name = base_page_name config @ '' - '' @ minute_label env (fst item),
      sink_content = [item]\<rparr>"

section \<open>Properties of the due check\<close>

lemma is_due_iff:
  "is_due now c \<longleftrightarrow>
     active c \<and> (last_sync c = None \<or> (\<exists>t. last_sync c = Some t \<and> now - t > minutes (sync_interval c)))"
  by (cases "last_sync c") (simp_all add: is_due_def)

text \<open>
  Claim C2. A scheduler tick selects a configuration exactly when it is active and
  either has never been synced or was last synced more than \<open>sync_interval\<close> minutes
  ago. With an interval of 30 minutes, an active configuration synced 31 minutes ago is
  selected, one synced 29 minutes ago is not, and one never synced is selected whatever
  the time and interval.
\<close>

theorem due_check_selects:
  "(c \<in> set (due_configs now db) \<longleftrightarrow>
      c \<in> set (sync_configurations db) \<and> active c \<and>
      (last_sync c = None \<or>
       (\<exists>t. last_sync c = Some t \<and> now - t > minutes (sync_interval c))))
   \<and> is_due now (c\<lparr>active := True, sync_interval := 30, last_sync := Some (now - minutes 31)\<rparr>)
   \<and> \<not> is_due now (c\<lparr>active := True, sync_interval := 30, last_sync := Some (now - minutes 29)\<rparr>)
   \<and> is_due now (c\<lparr>active := True, last_sync := None\<rparr>)"
  by (simp add: due_configs_def is_due_iff) (simp add: minutes_def)

section \<open>Strings: membership\<close>



section \<open>The batch processor: counters and keys\<close>

lemma process_url_counts_once:
  "progress p = Some g \<Longrightarrow>
   progress (snd (process_url w req url p)) = Some (g\<lparr>processed_urls := processed_urls g + 1\<rparr>)"
  by (simp add: process_url_def count_processed_def)

lemma count_processed_batch_size [simp]: "batch_size (count_processed p) = batch_size p"
  by (simp add: count_processed_def split: option.splits)

lemma gather_results:
  "fst (gather w req urls p) = map (\<lambda>u. [(u, url_result w req u)]) urls"
  by (induction urls arbitrary: p) (simp_all add: process_url_def case_prod_beta)

lemma gather_progress:
  "progress p = Some g \<Longrightarrow>
   progress (snd (gather w req urls p)) =
     Some (g\<lparr>processed_urls := processed_urls g + int (length urls)\<rparr>)"
proof (induction urls arbitrary: p g)
  case Nil
  then show ?case by simp
next
  case (Cons u us)
  let ?p1 = "count_processed (p\<lparr>events := events p @ [Completed u]\<rparr>)"
  have "progress ?p1 = Some (g\<lparr>processed_urls := processed_urls g + 1\<rparr>)"
    using Cons.prems by (simp add: count_processed_def)
  from Cons.IH [OF this] show ?case
    by (simp add: process_url_def case_prod_beta add.assoc add.commute)
qed

lemma gather_batch_size [simp]: "batch_size (snd (gather w req urls p)) = batch_size p"
  by (induction urls arbitrary: p) (simp_all add: process_url_def case_prod_beta)

lemma keys_dict_update:
  "fst ` set (dict_update d other) = fst ` set d \<union> fst ` set other"
  unfolding dict_update_def
proof (induction other arbitrary: d)
  case Nil
  then show ?case by simp
next
  case (Cons kv other)
  obtain k v where kv: "kv = (k, v)" by (cases kv)
  have "fst ` set (AList.update k v d) = insert k (fst ` set d)"
    by (simp add: AList.dom_update)
  then show ?case using Cons.IH [of "AList.update k v d"] by (simp add: kv)
qed

lemma distinct_dict_update:
  "distinct (map fst d) \<Longrightarrow> distinct (map fst (dict_update d other))"
  unfolding dict_update_def
  by (induction other arbitrary: d) (auto simp: AList.distinct_update)

lemma merge_keys:
  "fst ` set (fold (\<lambda>result merged. dict_update merged result) rs acc)
     = fst ` set acc \<union> fst ` set (concat rs)"
  by (induction rs arbitrary: acc) (auto simp: keys_dict_update)

lemma merge_distinct:
  "distinct (map fst acc) \<Longrightarrow>
   distinct (map fst (fold (\<lambda>result merged. dict_update merged result) rs acc))"
  by (induction rs arbitrary: acc) (auto simp: distinct_dict_update)

lemma process_batch_keys: "fst ` set (fst (process_batch w req urls p)) = set urls"
proof -
  have "fst ` set (concat (map (\<lambda>u. [(u, url_result w req u)]) urls)) = set urls"
    by (induction urls) auto
  then show ?thesis
    using gather_results [of w req urls "p\<lparr>events := events p @ map Requested urls\<rparr>"]
    by (simp add: process_batch_def merge_keys case_prod_beta)
qed

lemma process_batch_distinct: "distinct (map fst (fst (process_batch w req urls p)))"
  by (simp add: process_batch_def merge_distinct case_prod_beta)

lemma process_batch_progress:
  "progress p = Some g \<Longrightarrow>
   \<exists>g'. progress (snd (process_batch w req urls p)) = Some g' \<and>
        processed_urls g' = processed_urls g + int (length urls)"
  using gather_progress [of "p\<lparr>events := events p @ map Requested urls\<rparr>" g w req urls]
  by (auto simp: process_batch_def case_prod_beta)

lemma process_batch_batch_size [simp]:
  "batch_size (snd (process_batch w req urls p)) = batch_size p"
  using gather_batch_size [of w req urls "p\<lparr>events := events p @ map Requested urls\<rparr>"]
  by (auto simp: process_batch_def case_prod_beta split: option.splits)

lemma run_batches_batch_size [simp]:
  "batch_size (snd (run_batches w req urls is results p)) = batch_size p"
  by (induction "is" arbitrary: results p) (simp_all add: case_prod_beta)

lemma run_batches_keys:
  "fst ` set (fst (run_batches w req urls is results p))
     = fst ` set results \<union> set (concat (map (\<lambda>i. slice_from urls i (batch_size p)) is))"
  by (induction "is" arbitrary: results p)
     (auto simp: case_prod_beta keys_dict_update process_batch_keys)

lemma run_batches_distinct:
  "distinct (map fst results) \<Longrightarrow>
   distinct (map fst (fst (run_batches w req urls is results p)))"
  by (induction "is" arbitrary: results p)
     (simp_all add: case_prod_beta distinct_dict_update)

lemma run_batches_progress:
  "progress p = Some g \<Longrightarrow>
   \<exists>g'. progress (snd (run_batches w req urls is results p)) = Some g' \<and>
        processed_urls g' =
          processed_urls g + int (length (concat (map (\<lambda>i. slice_from urls i (batch_size p)) is)))"
proof (induction "is" arbitrary: results p g)
  case Nil
  then show ?case by simp
next
  case (Cons i "is")
  let ?b = "process_batch w req (slice_from urls i (batch_size p)) p"
  obtain g1 where g1: "progress (snd ?b) = Some g1"
    "processed_urls g1 = processed_urls g + int (length (slice_from urls i (batch_size p)))"
    using process_batch_progress [OF Cons.prems] by blast
  from Cons.IH [OF g1(1), of "dict_update results (fst ?b)"] g1(2)
  show ?case by (auto simp: case_prod_beta)
qed

lemma concat_slices:
  "concat (map (\<lambda>k. take s (drop (k * s) xs)) [0 ..< m]) = take (m * s) xs"
proof (induction m)
  case 0
  then show ?case by simp
next
  case (Suc m)
  have "take (m * s) xs @ take s (drop (m * s) xs) = take (m * s + s) xs"
    by (simp add: take_add)
  with Suc show ?case by (simp add: add.commute)
qed

lemma chunks_cover:
  assumes "0 < step"
  shows "concat (map (\<lambda>i. slice_from xs i step) (range_from_zero (length xs) step)) = xs"
proof -
  let ?s = "nat step"
  let ?m = "(length xs + ?s - 1) div ?s"
  have s: "0 < ?s" using assms by simp
  have "length xs + ?s - 1 < ?m * ?s + ?s"
    using s div_mult_mod_eq [of "length xs + ?s - 1" ?s] mod_less_divisor [OF s, of "length xs + ?s - 1"]
    by linarith
  then have le: "length xs \<le> ?m * ?s" using s by linarith
  have "concat (map (\<lambda>i. slice_from xs i step) (range_from_zero (length xs) step))
      = concat (map (\<lambda>k. take ?s (drop (k * ?s) xs)) [0 ..< ?m])"
    using assms by (simp add: range_from_zero_def slice_from_def comp_def)
  also have "\<dots> = take (?m * ?s) xs" by (rule concat_slices)
  also have "\<dots> = xs" using le by simp
  finally show ?thesis .
qed

text \<open>
  Claim C3. When a run of \<^verbatim>\<open>process_urls\<close> completes (the batch size being
  positive, as the default 10 is, and no other run using the same processor meanwhile),
  \<open>processed_urls\<close> equals the number of input URLs, the keys of the returned mapping
  are distinct and are exactly the input URLs, and the cleanup step of
  \<^verbatim>\<open>process_url\<close> adds exactly one to the counter whatever the URL's outcome.
\<close>

theorem process_urls_counts_every_url:
  assumes "0 < batch_size p"
  shows "\<exists>results p' g.
           process_urls w req urls p = (Inr results, p') \<and>
           progress p' = Some g \<and>
           processed_urls g = int (length urls) \<and>
           distinct (map fst results) \<and>
           fst ` set results = set urls \<and>
           (\<forall>u q h. progress q = Some h \<longrightarrow>
              progress (snd (process_url w req u q)) =
                Some (h\<lparr>processed_urls := processed_urls h + 1\<rparr>))"
proof -
  let ?n = "int (length urls)"
  let ?g0 = "\<lparr>total_urls = ?n, processed_urls = 0, failed_urls = 0, current_batch = 0,
              total_batches = ?n div batch_size p + (if ?n mod batch_size p \<noteq> 0 then 1 else 0)\<rparr>"
  let ?p0 = "p\<lparr>progress := Some ?g0\<rparr>"
  let ?r = "run_batches w req urls (range_from_zero (length urls) (batch_size p)) [] ?p0"
  have run: "process_urls w req urls p = (Inr (fst ?r), snd ?r)"
    using assms by (simp add: process_urls_def Let_def case_prod_beta)
  have cover: "concat (map (\<lambda>i. slice_from urls i (batch_size ?p0))
                 (range_from_zero (length urls) (batch_size p))) = urls"
    using chunks_cover [OF assms, of urls] by simp
  have "progress ?p0 = Some ?g0" by simp
  from run_batches_progress [OF this, of w req urls "range_from_zero (length urls) (batch_size p)" "[]"]
  obtain g where g: "progress (snd ?r) = Some g" "processed_urls g = ?n"
    unfolding cover by auto
  have keys: "fst ` set (fst ?r) = set urls"
    using run_batches_keys [of w req urls "range_from_zero (length urls) (batch_size p)" "[]" ?p0]
    unfolding cover by simp
  have dist: "distinct (map fst (fst ?r))"
    by (rule run_batches_distinct) simp
  show ?thesis
    using run g keys dist process_url_counts_once by blast
qed

theorem process_urls_counts_every_url_witness:
  "\<exists>results p' g.
     process_urls example_runtime plain_request
       [''https://a.example'', ''https://f.example'', ''https://a.example''] new_processor
       = (Inr results, p') \<and>
     progress p' = Some g \<and> processed_urls g = 3 \<and>
     distinct (map fst results) \<and>
     fst ` set results = {''https://a.example'', ''https://f.example''}"
proof -
  have "0 < batch_size new_processor" by (simp add: new_processor_def)
  from process_urls_counts_every_url [OF this, of example_runtime plain_request
      "[''https://a.example'', ''https://f.example'', ''https://a.example'']"]
  show ?thesis by auto
qed

section \<open>Content filters: order and meaning\<close>

lemma apply_filters_first_failure:
  assumes "\<forall>item \<in> set passed. check_filter w text_content item = Inr None"
    and "check_filter w text_content item = Inr (Some r)"
  shows "apply_filters w text_content (passed @ item # others) = Inr (Some r)"
  using assms by (induction passed) simp_all

lemma build_content_filters_order:
  "subseq (map fst (build_content_filters a b c d)) known_filter_kinds"
  by (simp add: build_content_filters_def known_filter_kinds_def)

lemmas py_int_eval =
  py_int_def strip_def is_space_def unsigned_literal_def is_digit_def

lemmas lower_eval = lower_def lower_char_def startswith_def








text \<open>
  Claim C7, as stated, fails: the filters are tried in the order in which the mapping
  holds them. For a text of length 5 and the mapping built as
  \<open>{contains: x, min_length: 10}\<close>, both filters fail and the rejection reported is
  that of \<open>contains\<close>.
\<close>

theorem filter_order_counterexample:
  "apply_filters example_runtime ''abcde'' [(''contains'', ''x''), (''min_length'', ''10'')]
     = Inr (Some (''Content filtered: Does not contain '' @ [CHR 0x27] @ ''x'' @ [CHR 0x27]))
   \<and> filter_fails example_runtime ''abcde'' (''min_length'', ''10'')
   \<and> filter_fails example_runtime ''abcde'' (''contains'', ''x'')"
  by (simp add: filter_fails_def check_filter_def lower_eval py_int_eval)

text \<open>
  Claim C7, amended. The filters are applied in the iteration order of the mapping,
  which is the order of insertion: the first item that fails ends the loop and its
  reason is reported. The form handler inserts the kinds in the order \<open>min_length\<close>,
  \<open>max_length\<close>, \<open>contains\<close>, \<open>excludes\<close>, so for a mapping it builds that order
  is fixed; for a text of length 5 and the form fields \<open>min_length = 10\<close>,
  \<open>contains = x\<close> the rejection reported is that of \<open>min_length\<close>.
\<close>

theorem filters_apply_in_insertion_order:
  "((\<forall>item \<in> set passed. check_filter w text_content item = Inr None) \<and>
     check_filter w text_content item = Inr (Some r)
      \<longrightarrow> apply_filters w text_content (passed @ item # others) = Inr (Some r))
   \<and> subseq (map fst (build_content_filters a b c d)) known_filter_kinds
   \<and> build_content_filters ''10'' [] ''x'' [] = [(''min_length'', ''10''), (''contains'', ''x'')]
   \<and> apply_filters w ''abcde'' (build_content_filters ''10'' [] ''x'' [])
       = Inr (Some ''Content filtered: Too short (min: 10)'')"
proof -
  have b: "build_content_filters ''10'' [] ''x'' [] = [(''min_length'', ''10''), (''contains'', ''x'')]"
    by (simp add: build_content_filters_def isdigit_def is_digit_def)
  have "apply_filters w ''abcde'' [(''min_length'', ''10''), (''contains'', ''x'')]
          = Inr (Some ''Content filtered: Too short (min: 10)'')"
    by (simp add: check_filter_def py_int_eval)
  then show ?thesis
    using b apply_filters_first_failure [of passed w text_content item r others]
      build_content_filters_order [of a b c d]
    by simp
qed

theorem filters_apply_in_insertion_order_witness:
  "apply_filters example_runtime ''abcde''
     [(''max_length'', ''100''), (''contains'', ''x''), (''min_length'', ''10'')]
     = Inr (Some (''Content filtered: Does not contain '' @ [CHR 0x27] @ ''x'' @ [CHR 0x27]))"
proof -
  have p: "\<forall>item \<in> set [(''max_length'', ''100'')].
             check_filter example_runtime ''abcde'' item = Inr None"
    by (simp add: check_filter_def py_int_eval)
  have f: "check_filter example_runtime ''abcde'' (''contains'', ''x'')
             = Inr (Some (''Content filtered: Does not contain '' @ [CHR 0x27] @ ''x'' @ [CHR 0x27]))"
    by (simp add: check_filter_def lower_eval)
  from filters_apply_in_insertion_order
    [of "[(''max_length'', ''100'')]" example_runtime "''abcde''" "(''contains'', ''x'')"
        "''Content filtered: Does not contain '' @ [CHR 0x27] @ ''x'' @ [CHR 0x27]"
        "[(''min_length'', ''10'')]"] p f
  show ?thesis by simp
qed





section \<open>The result of one URL\<close>

lemma url_result_raised:
  "http_get w url = Raised e \<Longrightarrow> url_result w req url = ''Error: '' @ e"
  by (simp add: url_result_def try_process_url_def)

lemma url_result_status:
  "http_get w url = Response status body \<Longrightarrow> status \<noteq> 200 \<Longrightarrow>
   url_result w req url = ''Error: HTTP '' @ show_nat status"
  by (simp add: url_result_def try_process_url_def)

lemma url_result_extracted:
  "http_get w url = Response 200 (Inr html) \<Longrightarrow> extract_text w req html = Inr text_content \<Longrightarrow>
   url_result w req url =
     (case search_and_filter w req text_content of Inl e \<Rightarrow> ''Error: '' @ e | Inr v \<Rightarrow> v)"
  by (simp add: url_result_def try_process_url_def)

lemma url_result_extract_raised:
  "http_get w url = Response 200 (Inr html) \<Longrightarrow> extract_text w req html = Inl e \<Longrightarrow>
   url_result w req url = ''Error: '' @ e"
  by (simp add: url_result_def try_process_url_def)

lemma url_result_try_raised:
  "try_process_url w req url = Inl e \<Longrightarrow> url_result w req url = ''Error: '' @ e"
  by (simp add: url_result_def)

lemma extract_text_nothing:
  "nothing_extracted w req html \<Longrightarrow> extract_text w req html = Inr no_content_found"
  by (auto simp: nothing_extracted_def extract_text_def split: if_splits sum.splits)

lemma search_and_filter_sentinel:
  "search_and_filter w req no_content_found = Inr no_content_found"
  by (simp add: search_and_filter_def split: option.splits)

lemma sentinel_not_error:
  "\<not> startswith no_content_found ''Error:'' \<and> \<not> startswith no_content_found ''Content filtered:''"
  by (simp add: no_content_found_def startswith_def)

lemma url_result_sentinel:
  "http_get w url = Response 200 (Inr html) \<Longrightarrow> nothing_extracted w req html \<Longrightarrow>
   url_result w req url = no_content_found"
  by (simp add: url_result_extracted [OF _ extract_text_nothing] search_and_filter_sentinel)

lemma extract_text_generic:
  "\<not> selector_truthy (req_content_selector req) \<Longrightarrow> \<not> truthy (req_code_selector req) \<Longrightarrow>
   \<not> truthy (req_exclude_selector req) \<Longrightarrow>
   extract_text w req html =
     (case trafilatura_extract w html of
        Inl e \<Rightarrow> Inl e
      | Inr None \<Rightarrow> Inr no_content_found
      | Inr (Some t) \<Rightarrow> Inr (if t \<noteq> [] then t else no_content_found))"
  by (simp add: extract_text_def)

lemma extract_text_bad_selector:
  "req_content_selector req = OneSelector s \<Longrightarrow> s \<noteq> [] \<Longrightarrow> soup_select w html s = Inl e \<Longrightarrow>
   extract_text w req html = Inl e"
  by (simp add: extract_text_def selector_truthy_def content_selectors_def)

lemmas example_eval =
  example_runtime_def plain_request_def url_result_def try_process_url_def extract_text_def
  selector_truthy_def truthy_def content_selectors_def optional_selector_def
  search_and_filter_def no_content_found_def startswith_def

section \<open>The batch processor: events and values\<close>

lemma count_processed_events [simp]: "events (count_processed p) = events p"
  by (simp add: count_processed_def split: option.splits)

lemma gather_events:
  "events (snd (gather w req urls p)) = events p @ map Completed urls"
  by (induction urls arbitrary: p) (simp_all add: process_url_def case_prod_beta)

lemma process_batch_events:
  "events (snd (process_batch w req urls p)) = events p @ map Requested urls @ map Completed urls"
  using gather_events [of w req urls "p\<lparr>events := events p @ map Requested urls\<rparr>"]
  by (simp add: process_batch_def case_prod_beta split: option.splits)

lemma run_batches_events:
  "events (snd (run_batches w req urls is results p)) =
     events p @ concat (map (\<lambda>i. map Requested (slice_from urls i (batch_size p))
                                  @ map Completed (slice_from urls i (batch_size p))) is)"
  by (induction "is" arbitrary: results p) (simp_all add: case_prod_beta process_batch_events)

lemma run_batches_requests:
  "Requested ` set (concat (map (\<lambda>i. slice_from urls i (batch_size p)) is))
     \<subseteq> set (events (snd (run_batches w req urls is results p)))"
  unfolding run_batches_events by auto

lemma set_update_subset: "set (AList.update k v al) \<subseteq> insert (k, v) (set al)"
  by (induction al) auto

lemma set_dict_update: "set (dict_update d other) \<subseteq> set d \<union> set other"
  unfolding dict_update_def
proof (induction other arbitrary: d)
  case Nil
  then show ?case by simp
next
  case (Cons kv other)
  obtain k v where kv: "kv = (k, v)" by (cases kv)
  show ?case using Cons.IH [of "AList.update k v d"] set_update_subset [of k v d]
    by (auto simp: kv)
qed

lemma set_merge:
  "set (fold (\<lambda>result merged. dict_update merged result) rs acc) \<subseteq> set acc \<union> set (concat rs)"
proof (induction rs arbitrary: acc)
  case Nil
  then show ?case by simp
next
  case (Cons r rs)
  show ?case using Cons.IH [of "dict_update acc r"] set_dict_update [of acc r] by auto
qed

lemma process_batch_values:
  assumes "(u, v) \<in> set (fst (process_batch w req urls p))"
  shows "v = url_result w req u"
proof -
  have "set (fst (process_batch w req urls p))
          \<subseteq> set (concat (map (\<lambda>u. [(u, url_result w req u)]) urls))"
    using set_merge [of "map (\<lambda>u. [(u, url_result w req u)]) urls" "[]"]
      gather_results [of w req urls "p\<lparr>events := events p @ map Requested urls\<rparr>"]
    by (simp add: process_batch_def case_prod_beta)
  with assms show ?thesis by auto
qed

lemma run_batches_values:
  "\<forall>(u, v) \<in> set results. v = url_result w req u \<Longrightarrow>
   \<forall>(u, v) \<in> set (fst (run_batches w req urls is results p)). v = url_result w req u"
proof (induction "is" arbitrary: results p)
  case Nil
  then show ?case by simp
next
  case (Cons i "is")
  let ?b = "process_batch w req (slice_from urls i (batch_size p)) p"
  have "\<forall>(u, v) \<in> set (dict_update results (fst ?b)). v = url_result w req u"
    using Cons.prems set_dict_update [of results "fst ?b"] process_batch_values [of _ _ w req _ p]
    by fastforce
  from Cons.IH [OF this] show ?case by (simp add: case_prod_beta)
qed

lemma process_urls_ok:
  assumes "0 < batch_size p"
  shows "\<exists>results p'.
           process_urls w req urls p = (Inr results, p') \<and>
           distinct (map fst results) \<and>
           fst ` set results = set urls \<and>
           (\<forall>(u, v) \<in> set results. v = url_result w req u) \<and>
           Requested ` set urls \<subseteq> set (events p')"
proof -
  let ?n = "int (length urls)"
  let ?g0 = "\<lparr>total_urls = ?n, processed_urls = 0, failed_urls = 0, current_batch = 0,
              total_batches = ?n div batch_size p + (if ?n mod batch_size p \<noteq> 0 then 1 else 0)\<rparr>"
  let ?p0 = "p\<lparr>progress := Some ?g0\<rparr>"
  let ?is = "range_from_zero (length urls) (batch_size p)"
  let ?r = "run_batches w req urls ?is [] ?p0"
  have run: "process_urls w req urls p = (Inr (fst ?r), snd ?r)"
    using assms by (simp add: process_urls_def Let_def case_prod_beta)
  have cover: "concat (map (\<lambda>i. slice_from urls i (batch_size ?p0)) ?is) = urls"
    using chunks_cover [OF assms, of urls] by simp
  have keys: "fst ` set (fst ?r) = set urls"
    using run_batches_keys [of w req urls ?is "[]" ?p0] unfolding cover by simp
  have dist: "distinct (map fst (fst ?r))"
    by (rule run_batches_distinct) simp
  have vals: "\<forall>(u, v) \<in> set (fst ?r). v = url_result w req u"
    by (rule run_batches_values) simp
  have reqs: "Requested ` set urls \<subseteq> set (events (snd ?r))"
    using run_batches_requests [of urls ?p0 ?is w req "[]"] unfolding cover by simp
  show ?thesis using run keys dist vals reqs by blast
qed

lemma process_urls_lookup:
  assumes "0 < batch_size p" and "url \<in> set urls"
  shows "\<exists>results. fst (process_urls w req urls p) = Inr results \<and>
                   map_of results url = Some (url_result w req url)"
proof -
  obtain results p' where r: "process_urls w req urls p = (Inr results, p')"
    "distinct (map fst results)" "fst ` set results = set urls"
    "\<forall>(u, v) \<in> set results. v = url_result w req u"
    using process_urls_ok [OF assms(1), of w req urls] by blast
  from r(3) assms(2) obtain v where v: "(url, v) \<in> set results" by force
  with r(4) have "v = url_result w req url" by auto
  with v r(2) have "map_of results url = Some (url_result w req url)" by simp
  with r(1) show ?thesis by simp
qed

lemma process_urls_fails_iff:
  "isl (fst (process_urls w req urls p)) \<longleftrightarrow> batch_size p = 0"
  by (simp add: process_urls_def Let_def case_prod_beta)

lemma process_urls_fails_early:
  "batch_size p = 0 \<Longrightarrow> events (snd (process_urls w req urls p)) = events p"
  by (simp add: process_urls_def)

lemma one_chunk: "0 < n \<Longrightarrow> n \<le> 10 \<Longrightarrow> range_from_zero n 10 = [0]"
proof -
  assume "0 < n" "n \<le> 10"
  then have "(n + 10 - 1) div 10 = 1" by simp
  then show ?thesis by (simp add: range_from_zero_def)
qed

lemma ten_urls_events:
  "events (snd (process_urls_sync example_runtime plain_request ten_urls))
     = map Requested ten_urls @ map Completed ten_urls"
proof -
  have "length ten_urls = 10" by (simp add: ten_urls_def)
  then show ?thesis
    by (simp add: process_urls_sync_def process_urls_def Let_def case_prod_beta run_batches_events
        process_batch_events new_processor_def one_chunk slice_from_def)
qed


section \<open>The steps of one URL\<close>

text \<open>
  Claim C4, as stated, fails on the batch processor. A page from which nothing is
  extracted gives the value \<open>No content found\<close>, which is not an error; and a 403
  gives the same kind of value as any other status that is not 200.
\<close>

theorem url_steps_counterexample:
  "http_get example_runtime ''https://e.example'' = Response 200 (Inr [])
   \<and> nothing_extracted example_runtime plain_request []
   \<and> url_result example_runtime plain_request ''https://e.example'' = ''No content found''
   \<and> \<not> startswith (url_result example_runtime plain_request ''https://e.example'') ''Error:''
   \<and> http_get example_runtime ''https://f.example'' = Response 403 (Inr ''denied'')
   \<and> url_result example_runtime plain_request ''https://f.example'' = ''Error: HTTP 403''"
  by (simp add: nothing_extracted_def example_eval)

text \<open>
  Claim C4, amended. In \<^verbatim>\<open>process_url\<close> of the batch processor, whatever the
  request raises (for a URL the client rejects as for a failed connection) becomes the
  value \<open>Error: message\<close>. A response with a status other than 200, 401 and 403 gives
  \<open>Error: HTTP code\<close>. For status 200 the extractor runs with the configured
  selectors, or the generic extractor when none is configured, and the extracted text
  goes on to the search and the filters. When nothing is extracted the value is
  \<open>No content found\<close>, which is not an error.
\<close>

theorem url_steps:
  "(http_get w url = Raised e \<longrightarrow> url_result w req url = ''Error: '' @ e)
   \<and> (http_get w url = Response status body \<and> status \<noteq> 200 \<and> status \<noteq> 401 \<and> status \<noteq> 403
        \<longrightarrow> url_result w req url = ''Error: HTTP '' @ show_nat status)
   \<and> (http_get w url = Response 200 (Inr html) \<and> extract_text w req html = Inr text_content
        \<longrightarrow> url_result w req url =
              (case search_and_filter w req text_content of Inl x \<Rightarrow> ''Error: '' @ x | Inr v \<Rightarrow> v))
   \<and> (\<not> selector_truthy (req_content_selector req) \<and> \<not> truthy (req_code_selector req)
        \<and> \<not> truthy (req_exclude_selector req)
        \<longrightarrow> extract_text w req html =
              (case trafilatura_extract w html of
                 Inl x \<Rightarrow> Inl x
               | Inr None \<Rightarrow> Inr no_content_found
               | Inr (Some t) \<Rightarrow> Inr (if t \<noteq> [] then t else no_content_found)))
   \<and> (http_get w url = Response 200 (Inr html) \<and> nothing_extracted w req html
        \<longrightarrow> url_result w req url = no_content_found
            \<and> \<not> startswith (url_result w req url) ''Error:'')"
  using url_result_raised [of w url e req]
    url_result_status [of w url status body req]
    url_result_extracted [of w url html req text_content]
    extract_text_generic [of req w html]
    url_result_sentinel [of w url html req]
    sentinel_not_error
  by simp

theorem url_steps_witness:
  "url_result example_runtime plain_request ''https://nowhere.example'' = ''Error: Cannot connect to host''
   \<and> url_result example_runtime plain_request ''https://s.example'' = ''Error: HTTP 500''
   \<and> url_result example_runtime plain_request ''https://b.example'' = ''beta''
   \<and> url_result example_runtime plain_request ''https://e.example'' = ''No content found''"
proof -
  have g: "\<not> selector_truthy (req_content_selector plain_request) \<and>
           \<not> truthy (req_code_selector plain_request) \<and>
           \<not> truthy (req_exclude_selector plain_request)"
    by (simp add: plain_request_def selector_truthy_def truthy_def)
  have 1: "http_get example_runtime ''https://nowhere.example'' = Raised ''Cannot connect to host''"
    by (simp add: example_runtime_def startswith_def)
  have 2: "http_get example_runtime ''https://s.example'' = Response 500 (Inr ''broken'')
           \<and> (500::nat) \<noteq> 200 \<and> (500::nat) \<noteq> 401 \<and> (500::nat) \<noteq> 403"
    by (simp add: example_runtime_def startswith_def)
  have x: "extract_text example_runtime plain_request ''beta'' = Inr ''beta''"
    using url_steps [of example_runtime _ _ plain_request _ _ "''beta''"] g
    by (simp add: example_runtime_def)
  have 3: "http_get example_runtime ''https://b.example'' = Response 200 (Inr ''beta'')
           \<and> extract_text example_runtime plain_request ''beta'' = Inr ''beta''"
    using x by (simp add: example_runtime_def startswith_def)
  have 4: "http_get example_runtime ''https://e.example'' = Response 200 (Inr [])
           \<and> nothing_extracted example_runtime plain_request []"
    by (simp add: nothing_extracted_def example_eval)
  have s: "search_and_filter example_runtime plain_request ''beta'' = Inr ''beta''"
    by (simp add: search_and_filter_def plain_request_def truthy_def)
  from url_steps [of example_runtime "''https://nowhere.example''" "''Cannot connect to host''"
      plain_request] 1
    url_steps [of example_runtime "''https://s.example''" _ plain_request 500 "Inr ''broken''"] 2
    url_steps [of example_runtime "''https://b.example''" _ plain_request _ _ "''beta''" "''beta''"] 3 s
    url_steps [of example_runtime "''https://e.example''" _ plain_request _ _ "[]"] 4
  show ?thesis by (simp add: no_content_found_def)
qed


section \<open>Concurrency of a chunk\<close>

text \<open>
  Claim C5 on the code. A new processor declares \<open>max_concurrent = 5\<close>; for ten URLs
  (one chunk of the default size 10) all ten requests are issued before any URL
  completes, so ten fetches are in flight at once.
\<close>

theorem chunk_exceeds_max_concurrent:
  "max_concurrent new_processor = 5
   \<and> length ten_urls = 10
   \<and> events (snd (process_urls_sync example_runtime plain_request ten_urls))
       = map Requested ten_urls @ map Completed ten_urls
   \<and> peak_in_flight (events (snd (process_urls_sync example_runtime plain_request ten_urls))) = 10"
  unfolding ten_urls_events
  by (simp add: peak_in_flight_def ten_urls_def new_processor_def)

section \<open>Failures of the pipeline\<close>

text \<open>
  Claim C6, as stated, fails: an invalid selector does not make the pipeline fail, and
  it is found only after the URL was requested. With the selector \<open>[\<close> the run
  returns a mapping, the URL's value is the error of the selector engine, and the trace
  shows the request.
\<close>

theorem invalid_selector_counterexample:
  "fst (process_urls_sync example_runtime
          (plain_request\<lparr>req_content_selector := OneSelector ''[''\<rparr>) [''https://a.example''])
     = Inr [(''https://a.example'', ''Error: Malformed attribute selector'')]
   \<and> events (snd (process_urls_sync example_runtime
          (plain_request\<lparr>req_content_selector := OneSelector ''[''\<rparr>) [''https://a.example'']))
     = [Requested ''https://a.example'', Completed ''https://a.example'']"
  by (simp add: process_urls_sync_def process_urls_def new_processor_def range_from_zero_def
      slice_from_def process_batch_def process_url_def count_processed_def dict_update_def
      example_eval)

text \<open>
  Claim C6, amended. Every exception raised while a URL is processed (by the request,
  by decoding the body, by a selector, by the extractor or by a filter value that is not
  a number) is stored as the value \<open>Error: message\<close> of that URL in the returned
  mapping and is not raised to the caller; the exception of an invalid selector is one
  of them and does not make the pipeline fail. \<^verbatim>\<open>process_urls\<close> itself raises
  only for a batch size of zero, and then before any request.
\<close>

theorem errors_are_values:
  "(isl (fst (process_urls w req urls p)) \<longleftrightarrow> batch_size p = 0)
   \<and> (batch_size p = 0 \<longrightarrow> events (snd (process_urls w req urls p)) = events p)
   \<and> (0 < batch_size p \<and> url \<in> set urls \<longrightarrow>
        (\<exists>results. fst (process_urls w req urls p) = Inr results
                    \<and> map_of results url = Some (url_result w req url)))
   \<and> (try_process_url w req url = Inl e \<longrightarrow> url_result w req url = ''Error: '' @ e)
   \<and> (http_get w url = Response 200 (Inr html) \<and> req_content_selector req = OneSelector s
        \<and> s \<noteq> [] \<and> soup_select w html s = Inl e
        \<longrightarrow> url_result w req url = ''Error: '' @ e)"
  using process_urls_fails_iff [of w req urls p]
    process_urls_fails_early [of p w req urls]
    process_urls_lookup [of p url urls w req]
    url_result_try_raised [of w req url e]
    url_result_extract_raised [of w url html req e]
    extract_text_bad_selector [of req s w html e]
  by simp

theorem errors_are_values_witness:
  "\<not> isl (fst (process_urls_sync example_runtime
            (plain_request\<lparr>req_content_selector := OneSelector ''[''\<rparr>) [''https://a.example'']))
   \<and> (\<exists>results.
         fst (process_urls_sync example_runtime
                (plain_request\<lparr>req_content_selector := OneSelector ''[''\<rparr>) [''https://a.example''])
           = Inr results
         \<and> map_of results ''https://a.example'' = Some ''Error: Malformed attribute selector'')
   \<and> events (snd (process_urls example_runtime plain_request [''https://a.example'']
        (new_processor\<lparr>batch_size := 0\<rparr>))) = []"
proof -
  let ?req = "plain_request\<lparr>req_content_selector := OneSelector ''[''\<rparr>"
  have b: "0 < batch_size new_processor \<and> ''https://a.example'' \<in> set [''https://a.example'']"
    by (simp add: new_processor_def)
  have h: "http_get example_runtime ''https://a.example'' = Response 200 (Inr ''alpha'')
           \<and> req_content_selector ?req = OneSelector ''['' \<and> ''['' \<noteq> []
           \<and> soup_select example_runtime ''alpha'' ''['' = Inl ''Malformed attribute selector''"
    by (simp add: example_runtime_def startswith_def)
  have z: "batch_size (new_processor\<lparr>batch_size := 0\<rparr>) = 0 \<and> events new_processor = []"
    by (simp add: new_processor_def)
  from errors_are_values [of example_runtime ?req "[''https://a.example'']" new_processor
      "''https://a.example''" "''Malformed attribute selector''" "''alpha''" "''[''"] b h
    errors_are_values [of example_runtime plain_request "[''https://a.example'']"
      "new_processor\<lparr>batch_size := 0\<rparr>" "[]" "[]" "[]" "[]"] z
  show ?thesis by (auto simp: process_urls_sync_def)
qed

section \<open>The value for a page without content\<close>

lemma is_changed_iff:
  "is_changed env rows url content
     \<longleftrightarrow> Some (compute_content_hash env content) \<noteq> find_old_hash rows url"
  by (cases "find_old_hash rows url") (auto simp: is_changed_def)

lemma detect_changes_one_changed:
  assumes "\<not> startswith content ''Error:''" and "is_changed env rows url content"
    and "db_fault env (UpdateTracked url) = None"
  shows "detect_changes env now config rows [(url, content)] st =
           st\<lparr>urls_changed := urls_changed st + 1,
              tracked_table :=
                update_tracked_url (cfg_id config) url (compute_content_hash env content) now
                  (tracked_table st),
              sink_calls := sink_calls st @ [sink_call_for env config (url, content)]\<rparr>"
  using assms by (simp add: is_changed_iff Let_def sink_call_for_def)

text \<open>
  Claim C10. When nothing can be extracted from a fetched page, \<^verbatim>\<open>process_url\<close>
  maps the URL to the literal \<open>No content found\<close>, which is neither an error nor a
  filtered outcome; the search query and the content filters of any request leave that
  value as it is; a sync pass does not count it as failed; and the pass hashes it and,
  when the hash differs from the stored one, updates the row and calls the sink with
  it, as for any other content.
\<close>

theorem no_content_is_a_value:
  assumes "http_get w url = Response 200 (Inr html)" and "nothing_extracted w req html"
  shows "url_result w req url = ''No content found''
         \<and> \<not> startswith (url_result w req url) ''Error:''
         \<and> \<not> startswith (url_result w req url) ''Content filtered:''
         \<and> search_and_filter w any_req ''No content found'' = Inr ''No content found''
         \<and> length (filter (\<lambda>(u, content). startswith content ''Error:'')
                     [(url, url_result w req url)]) = 0
         \<and> (is_changed env rows url ''No content found'' \<and> db_fault env (UpdateTracked url) = None
              \<longrightarrow> detect_changes env now config rows [(url, url_result w req url)] st =
                    st\<lparr>urls_changed := urls_changed st + 1,
                       tracked_table :=
                         update_tracked_url (cfg_id config) url
                           (compute_content_hash env ''No content found'') now (tracked_table st),
                       sink_calls := sink_calls st @
                         [sink_call_for env config (url, ''No content found'')]\<rparr>)"
proof -
  have r: "url_result w req url = no_content_found"
    using assms by (rule url_result_sentinel)
  have n: "\<not> startswith no_content_found ''Error:''"
    using sentinel_not_error by simp
  show ?thesis
    using r sentinel_not_error search_and_filter_sentinel [of w any_req]
      detect_changes_one_changed [OF n, of env rows url now config st]
    by (simp add: no_content_found_def)
qed

theorem no_content_is_a_value_witness:
  "url_result example_runtime plain_request ''https://e.example'' = ''No content found''
   \<and> sink_calls (detect_changes example_env 0 example_config (tracked_urls example_store)
        [(''https://e.example'', url_result example_runtime plain_request ''https://e.example'')]
        \<lparr>tracked_table = tracked_urls example_store, urls_changed = 0, sink_calls = [],
         raised = None\<rparr>)
     = [sink_call_for example_env example_config (''https://e.example'', ''No content found'')]"
proof -
  have h: "http_get example_runtime ''https://e.example'' = Response 200 (Inr [])"
    by (simp add: example_runtime_def startswith_def)
  have n: "nothing_extracted example_runtime plain_request []"
    by (simp add: nothing_extracted_def example_eval)
  have c: "is_changed example_env (tracked_urls example_store) ''https://e.example'' ''No content found''
           \<and> db_fault example_env (UpdateTracked ''https://e.example'') = None"
    by (simp add: is_changed_def find_old_hash_def example_store_def example_env_def)
  let ?st = "\<lparr>tracked_table = tracked_urls example_store, urls_changed = 0, sink_calls = [],
         raised = None\<rparr>"
  note t = no_content_is_a_value [OF h n, where any_req = plain_request and env = example_env
      and rows = "tracked_urls example_store" and now = 0 and config = example_config
      and st = ?st]
  have r: "url_result example_runtime plain_request ''https://e.example'' = ''No content found''"
    using t by blast
  have d: "detect_changes example_env 0 example_config (tracked_urls example_store)
             [(''https://e.example'', url_result example_runtime plain_request ''https://e.example'')] ?st
           = ?st\<lparr>urls_changed := urls_changed ?st + 1,
                 tracked_table :=
                   update_tracked_url (cfg_id example_config) ''https://e.example''
                     (compute_content_hash example_env ''No content found'') 0 (tracked_table ?st),
                 sink_calls := sink_calls ?st @
                   [sink_call_for example_env example_config (''https://e.example'', ''No content found'')]\<rparr>"
    using t c by blast
  show ?thesis unfolding d using r by simp
qed


section \<open>The sync pass: change detection\<close>

lemma detect_changes_skip:
  "startswith content ''Error:'' \<or> \<not> is_changed env rows url content \<Longrightarrow>
   detect_changes env now config rows ((url, content) # items) st
     = detect_changes env now config rows items st"
  by (auto simp: is_changed_iff Let_def)

lemma detect_changes_step:
  "\<not> startswith content ''Error:'' \<Longrightarrow> is_changed env rows url content \<Longrightarrow>
   db_fault env (UpdateTracked url) = None \<Longrightarrow>
   detect_changes env now config rows ((url, content) # items) st
     = detect_changes env now config rows items
         (st\<lparr>urls_changed := urls_changed st + 1,
             tracked_table :=
               update_tracked_url (cfg_id config) url (compute_content_hash env content) now
                 (tracked_table st),
             sink_calls := sink_calls st @ [sink_call_for env config (url, content)]\<rparr>)"
  by (simp add: is_changed_iff Let_def sink_call_for_def)

lemma detect_changes_fault:
  "\<not> startswith content ''Error:'' \<Longrightarrow> is_changed env rows url content \<Longrightarrow>
   db_fault env (UpdateTracked url) = Some e \<Longrightarrow>
   detect_changes env now config rows ((url, content) # items) st
     = st\<lparr>urls_changed := urls_changed st + 1, raised := Some e\<rparr>"
  by (simp add: is_changed_iff Let_def)

lemma detect_changes_completed:
  assumes "raised (detect_changes env now config rows items st) = None"
  shows "sink_calls (detect_changes env now config rows items st)
           = sink_calls st @ map (sink_call_for env config) (changed_items env rows items)
         \<and> tracked_table (detect_changes env now config rows items st)
           = fold (\<lambda>(url, content).
                     update_tracked_url (cfg_id config) url (compute_content_hash env content) now)
               (changed_items env rows items) (tracked_table st)
         \<and> urls_changed (detect_changes env now config rows items st)
           = urls_changed st + length (changed_items env rows items)"
  using assms
proof (induction items arbitrary: st)
  case Nil
  then show ?case by (simp add: changed_items_def)
next
  case (Cons item items)
  obtain url content where item: "item = (url, content)" by (cases item)
  show ?case
  proof (cases "\<not> startswith content ''Error:'' \<and> is_changed env rows url content")
    case True
    then have ne: "\<not> startswith content ''Error:''" and ch: "is_changed env rows url content"
      by simp_all
    show ?thesis
    proof (cases "db_fault env (UpdateTracked url)")
      case None
      let ?st = "st\<lparr>urls_changed := urls_changed st + 1,
              tracked_table :=
                update_tracked_url (cfg_id config) url (compute_content_hash env content) now
                  (tracked_table st),
              sink_calls := sink_calls st @ [sink_call_for env config (url, content)]\<rparr>"
      have step: "detect_changes env now config rows (item # items) st
                    = detect_changes env now config rows items ?st"
        unfolding item by (rule detect_changes_step [OF ne ch None])
      with Cons.prems have "raised (detect_changes env now config rows items ?st) = None"
        by simp
      from Cons.IH [OF this] True show ?thesis
        unfolding step by (simp add: changed_items_def item)
    next
      case (Some e)
      from detect_changes_fault [OF ne ch Some] Cons.prems show ?thesis
        by (simp add: item)
    qed
  next
    case False
    then have "startswith content ''Error:'' \<or> \<not> is_changed env rows url content" by blast
    then have step: "detect_changes env now config rows (item # items) st
                  = detect_changes env now config rows items st"
      unfolding item by (rule detect_changes_skip)
    with Cons.prems have "raised (detect_changes env now config rows items st) = None"
      by simp
    from Cons.IH [OF this] False show ?thesis
      unfolding step by (auto simp: changed_items_def item)
  qed
qed

lemma persist_change_nil: "persist_change env now config [] = (\<lambda>row. row)"
  by (rule ext) (simp add: persist_change_def)

lemma persist_change_keeps [simp]:
  "tu_url (persist_change env now config items row) = tu_url row"
  "tu_config_id (persist_change env now config items row) = tu_config_id row"
  by (simp_all add: persist_change_def split: option.splits)

lemma update_tracked_url_keeps:
  "map tu_url (update_tracked_url cid url h now rows) = map tu_url rows"
  by (simp add: update_tracked_url_def comp_def)

lemma fold_updates_persist:
  assumes "distinct (map fst items)"
  shows "fold (\<lambda>(url, content).
                 update_tracked_url (cfg_id config) url (compute_content_hash env content) now)
           items rows
         = map (persist_change env now config items) rows"
  using assms
proof (induction items arbitrary: rows)
  case Nil
  then show ?case by (simp add: persist_change_nil)
next
  case (Cons item items)
  obtain url content where item: "item = (url, content)" by (cases item)
  from Cons.prems have d: "distinct (map fst items)" and n: "url \<notin> fst ` set items"
    by (auto simp: item)
  have none: "map_of items url = None"
    using n by (simp add: map_of_eq_None_iff)
  have "map (persist_change env now config items)
          (update_tracked_url (cfg_id config) url (compute_content_hash env content) now rows)
        = map (persist_change env now config ((url, content) # items)) rows"
    by (auto simp: update_tracked_url_def persist_change_def none split: option.splits)
  with Cons.IH [OF d] show ?case by (simp add: item)
qed

lemma changed_items_distinct:
  "distinct (map fst results) \<Longrightarrow> distinct (map fst (changed_items env rows results))"
  unfolding changed_items_def by (rule distinct_map_filter)

lemma find_old_hash_persist:
  "find_old_hash (map (persist_change env now config items) rows) url
     = (case filter (\<lambda>row. tu_url row = url) rows of
          [] \<Rightarrow> None
        | row # _ \<Rightarrow> last_content_hash (persist_change env now config items row))"
proof -
  have "filter (\<lambda>row. tu_url row = url) (map (persist_change env now config items) rows)
          = map (persist_change env now config items) (filter (\<lambda>row. tu_url row = url) rows)"
    by (induction rows) simp_all
  then show ?thesis by (simp add: find_old_hash_def split: list.splits)
qed

lemma pass_rows_persist:
  "filter (\<lambda>row. tu_config_id row = cid) (map (persist_change env now config items) rows)
     = map (persist_change env now config items) (filter (\<lambda>row. tu_config_id row = cid) rows)"
  by (induction rows) simp_all

lemma pass_results_ok:
  "\<exists>p'. process_urls w (request_of config) (map tu_url (pass_rows config db)) new_processor
           = (Inr (pass_results w config db), p')
        \<and> distinct (map fst (pass_results w config db))
        \<and> fst ` set (pass_results w config db) = tu_url ` set (pass_rows config db)"
proof -
  have "0 < batch_size new_processor" by (simp add: new_processor_def)
  from process_urls_ok [OF this, of w "request_of config" "map tu_url (pass_rows config db)"]
  obtain results p' where r:
    "process_urls w (request_of config) (map tu_url (pass_rows config db)) new_processor
       = (Inr results, p')"
    "distinct (map fst results)"
    "fst ` set results = set (map tu_url (pass_rows config db))"
    by blast
  from r(1) have "pass_results w config db = results" by (simp add: pass_results_def)
  with r show ?thesis by simp
qed

lemma unchanged_after_persist:
  assumes rows: "\<forall>row \<in> set rows. tu_config_id row = cfg_id config"
    and dist: "distinct (map fst results)"
    and keys: "fst ` set results = tu_url ` set rows"
    and item: "(url, content) \<in> set results" "\<not> startswith content ''Error:''"
  shows "\<not> is_changed env
           (map (persist_change env now config (changed_items env rows results)) rows) url content"
proof -
  let ?ch = "changed_items env rows results"
  from keys item(1) have "url \<in> tu_url ` set rows" by force
  then have "filter (\<lambda>row. tu_url row = url) rows \<noteq> []"
    by (auto simp: filter_empty_conv)
  then obtain r0 rest where r0: "filter (\<lambda>row. tu_url row = url) rows = r0 # rest"
    by (cases "filter (\<lambda>row. tu_url row = url) rows") auto
  then have "r0 \<in> set (filter (\<lambda>row. tu_url row = url) rows)" by simp
  then have r0_in: "r0 \<in> set rows" and r0_url: "tu_url r0 = url" by auto
  with rows have r0_cfg: "tu_config_id r0 = cfg_id config" by blast
  have old': "find_old_hash (map (persist_change env now config ?ch) rows) url
                = last_content_hash (persist_change env now config ?ch r0)"
    by (simp add: find_old_hash_persist r0)
  have old: "find_old_hash rows url = last_content_hash r0"
    by (simp add: find_old_hash_def r0)
  have dch: "distinct (map fst ?ch)" using dist by (rule changed_items_distinct)
  show ?thesis
  proof (cases "(url, content) \<in> set ?ch")
    case True
    with dch have "map_of ?ch url = Some content" by simp
    then have "last_content_hash (persist_change env now config ?ch r0)
                 = Some (compute_content_hash env content)"
      by (simp add: persist_change_def r0_url r0_cfg)
    then show ?thesis by (simp add: is_changed_iff old')
  next
    case False
    with item have nc: "\<not> is_changed env rows url content"
      by (auto simp: changed_items_def)
    have "url \<notin> fst ` set ?ch"
    proof
      assume "url \<in> fst ` set ?ch"
      then obtain c where c: "(url, c) \<in> set ?ch" by force
      then have "(url, c) \<in> set results" by (auto simp: changed_items_def)
      with item(1) dist have "c = content" by (meson eq_key_imp_eq_value)
      with c False show False by simp
    qed
    then have "map_of ?ch url = None" by (simp add: map_of_eq_None_iff)
    then have "persist_change env now config ?ch r0 = r0"
      by (simp add: persist_change_def r0_url)
    with nc show ?thesis by (simp add: is_changed_iff old' old)
  qed
qed

lemma sync_pass_completed:
  assumes "sync_pass env w now config db = (Inr db', calls)"
  shows "calls = map (sink_call_for env config)
                   (changed_items env (pass_rows config db) (pass_results w config db))
         \<and> tracked_urls db'
             = map (persist_change env now config
                      (changed_items env (pass_rows config db) (pass_results w config db)))
                 (tracked_urls db)"
proof (cases "pass_rows config db = []")
  case True
  then have "pass_results w config db = []"
    using pass_results_ok [of w config db] by simp
  then have "changed_items env (pass_rows config db) (pass_results w config db) = []"
    by (simp add: changed_items_def)
  moreover have "db' = db \<and> calls = []"
    using assms True by (auto simp: sync_pass_def pass_rows_def split: option.splits)
  ultimately show ?thesis by (simp add: persist_change_nil)
next
  case False
  let ?rows = "pass_rows config db"
  let ?results = "pass_results w config db"
  let ?st = "detect_changes env now config ?rows ?results
               \<lparr>tracked_table = tracked_urls db, urls_changed = 0, sink_calls = [], raised = None\<rparr>"
  obtain p' where run: "process_urls w (request_of config) (map tu_url ?rows) new_processor
                          = (Inr ?results, p')"
    and dist: "distinct (map fst ?results)"
    using pass_results_ok [of w config db] by blast
  from assms False run have fin: "raised ?st = None"
    and out: "calls = sink_calls ?st" "tracked_urls db' = tracked_table ?st"
    by (auto simp: sync_pass_def pass_rows_def Let_def split: option.splits)
  from detect_changes_completed [OF fin] out
    fold_updates_persist [OF changed_items_distinct [OF dist], where config = config and env = env
      and now = now and rows = "tracked_urls db"]
  show ?thesis by simp
qed


text \<open>
  Claim C1. In a pass that completes, a result that is not an error is treated as
  changed exactly when the hash of its text differs from the stored hash of its URL,
  a missing stored hash always differing. The sink is called once for each changed
  result and for nothing else, in the order of the results; the rows of exactly the
  changed URLs of this configuration get the new hash and the pass's timestamp, all
  other rows staying as they were. After the pass no result of it that is not an error
  is changed with respect to the new store, so a second pass that extracts the same
  text for a URL does not treat it as changed and makes no sink call for it.
\<close>

theorem change_detection:
  assumes "sync_pass env w now config db = (Inr db', calls)"
  shows "(is_changed env rows url content
            \<longleftrightarrow> Some (compute_content_hash env content) \<noteq> find_old_hash rows url)
         \<and> (find_old_hash rows url = None \<longrightarrow> is_changed env rows url content)
         \<and> calls = map (sink_call_for env config)
                     (changed_items env (pass_rows config db) (pass_results w config db))
         \<and> tracked_urls db'
             = map (persist_change env now config
                      (changed_items env (pass_rows config db) (pass_results w config db)))
                 (tracked_urls db)
         \<and> distinct (map fst (pass_results w config db))
         \<and> (\<forall>(u, c) \<in> set (pass_results w config db).
               \<not> startswith c ''Error:'' \<longrightarrow> \<not> is_changed env (pass_rows config db') u c)
         \<and> (\<forall>(u, c) \<in> set (pass_results w config db).
               \<not> startswith c ''Error:''
               \<and> sync_pass env w2 now2 config db' = (Inr db2, calls2)
               \<and> (u, c) \<in> set (pass_results w2 config db')
               \<longrightarrow> (\<forall>call \<in> set calls2. u \<notin> fst ` set (sink_content call)))"
proof -
  let ?rows = "pass_rows config db"
  let ?results = "pass_results w config db"
  let ?ch = "changed_items env ?rows ?results"
  have dist: "distinct (map fst ?results)"
    and keys: "fst ` set ?results = tu_url ` set ?rows"
    using pass_results_ok [of w config db] by blast+
  have first: "calls = map (sink_call_for env config) ?ch"
    and table: "tracked_urls db' = map (persist_change env now config ?ch) (tracked_urls db)"
    using sync_pass_completed [OF assms] by blast+
  have rows': "pass_rows config db' = map (persist_change env now config ?ch) ?rows"
    by (simp add: pass_rows_def table pass_rows_persist)
  have cfg: "\<forall>row \<in> set ?rows. tu_config_id row = cfg_id config"
    by (simp add: pass_rows_def)
  have after: "\<not> is_changed env (pass_rows config db') u c"
    if "(u, c) \<in> set ?results" "\<not> startswith c ''Error:''" for u c
    unfolding rows' using cfg dist keys that by (rule unchanged_after_persist)
  have second: "\<forall>call \<in> set calls2. u \<notin> fst ` set (sink_content call)"
    if item: "(u, c) \<in> set ?results" "\<not> startswith c ''Error:''"
      and pass2: "sync_pass env w2 now2 config db' = (Inr db2, calls2)"
      and same: "(u, c) \<in> set (pass_results w2 config db')" for u c
  proof -
    let ?ch2 = "changed_items env (pass_rows config db') (pass_results w2 config db')"
    have calls2: "calls2 = map (sink_call_for env config) ?ch2"
      using sync_pass_completed [OF pass2] by blast
    have dist2: "distinct (map fst (pass_results w2 config db'))"
      using pass_results_ok [of w2 config db'] by blast
    have "u \<notin> fst ` set ?ch2"
    proof
      assume "u \<in> fst ` set ?ch2"
      then obtain c' where c': "(u, c') \<in> set ?ch2" by force
      then have "(u, c') \<in> set (pass_results w2 config db')"
        and ch: "is_changed env (pass_rows config db') u c'"
        by (auto simp: changed_items_def)
      with same dist2 have "c' = c" by (meson eq_key_imp_eq_value)
      with ch after [OF item] show False by simp
    qed
    then show ?thesis by (auto simp: calls2 sink_call_for_def)
  qed
  have none: "find_old_hash rows url = None \<longrightarrow> is_changed env rows url content"
    by (simp add: is_changed_def)
  from is_changed_iff [of env rows url content] none first table dist after second
  show ?thesis by blast
qed

lemma example_results:
  "pass_results example_runtime example_config example_store
     = [(''https://a.example'', ''alpha''), (''https://b.example'', ''beta'')]"
  by (simp add: pass_results_def pass_rows_def example_store_def example_config_def request_of_def
      process_urls_def new_processor_def range_from_zero_def slice_from_def process_batch_def
      process_url_def count_processed_def dict_update_def example_eval)

lemma example_first_pass:
  "sync_pass example_env example_runtime 1000 example_config example_store
     = (Inr example_store_synced,
        [sink_call_for example_env example_config (''https://a.example'', ''alpha''),
         sink_call_for example_env example_config (''https://b.example'', ''beta'')])"
  by (simp add: sync_pass_def example_env_def example_store_def example_config_def request_of_def
      process_urls_def new_processor_def range_from_zero_def slice_from_def process_batch_def
      process_url_def count_processed_def dict_update_def example_eval
      find_old_hash_def update_tracked_url_def compute_content_hash_def sink_call_for_def
      example_store_synced_def)

theorem change_detection_witness:
  "snd (sync_pass example_env example_runtime 1000 example_config example_store)
     = map (sink_call_for example_env example_config)
         [(''https://a.example'', ''alpha''), (''https://b.example'', ''beta'')]
   \<and> \<not> is_changed example_env (pass_rows example_config example_store_synced)
         ''https://a.example'' ''alpha''"
proof -
  note t = change_detection [OF example_first_pass]
  have a: "(''https://a.example'', ''alpha'')
             \<in> set (pass_results example_runtime example_config example_store)"
    by (simp add: example_results)
  have e: "\<not> startswith ''alpha'' ''Error:''" by (simp add: startswith_def)
  have "\<forall>(u, c) \<in> set (pass_results example_runtime example_config example_store).
          \<not> startswith c ''Error:''
            \<longrightarrow> \<not> is_changed example_env (pass_rows example_config example_store_synced) u c"
    using t by blast
  with a e have "\<not> is_changed example_env (pass_rows example_config example_store_synced)
                    ''https://a.example'' ''alpha''"
    by blast
  then show ?thesis by (simp add: example_first_pass)
qed


section \<open>A pass that raises\<close>



lemma process_config_completed:
  assumes "fst (sync_pass env w now config db) = Inr db'"
  shows "fst (process_config env w now config db) = db'"
  using assms by (cases "sync_pass env w now config db") (simp add: process_config_def)





end
